theory Spec2Isabelle
  imports Main
begin
section \<open>JavaScript values\<close>

text \<open>
  The component of \<^verbatim>\<open>src/components/Showcase.tsx\<close> reads the members of the fetched
  JSON objects at type \<^verbatim>\<open>any\<close>. A member is modelled as a primitive JavaScript value;
  a member that the object does not have reads as \<open>JUndefined\<close>. Numbers are the integers
  (the identifiers, years and counts of the program); they are exact below \<open>2 ^ 53\<close>.
  A string is a list of code units below 256.
\<close>

datatype jsval = JUndefined | JNull | JBool bool | JNum int | JStr string

text \<open>ToBoolean: the falsy values are undefined, null, false, 0 and the empty string.\<close>

fun truthy :: "jsval \<Rightarrow> bool" where
  "truthy JUndefined = False"
| "truthy JNull = False"
| "truthy (JBool b) = b"
| "truthy (JNum n) = (n \<noteq> 0)"
| "truthy (JStr s) = (s \<noteq> [])"

text \<open>The operator \<^verbatim>\<open>a || b\<close>.\<close>

definition js_or :: "jsval \<Rightarrow> jsval \<Rightarrow> jsval" where
  "js_or a b = (if truthy a then a else b)"

text \<open>Decimal digits of a number, as Number.prototype.toString prints an integer.\<close>

definition digit_char :: "nat \<Rightarrow> char" where
  "digit_char d = char_of (48 + d)"

function string_of_nat :: "nat \<Rightarrow> string" where
  "string_of_nat n =
     (if n < 10 then [digit_char n] else string_of_nat (n div 10) @ [digit_char (n mod 10)])"
  by pat_completeness auto
termination
  by (relation "measure (\<lambda>n. n)") auto

declare string_of_nat.simps [simp del]

definition string_of_int :: "int \<Rightarrow> string" where
  "string_of_int i = (if i < 0 then CHR ''-'' # string_of_nat (nat (- i)) else string_of_nat (nat i))"

text \<open>ToString, used by template literals and by property keys.\<close>

fun js_toString :: "jsval \<Rightarrow> string" where
  "js_toString JUndefined = ''undefined''"
| "js_toString JNull = ''null''"
| "js_toString (JBool b) = (if b then ''true'' else ''false'')"
| "js_toString (JNum n) = string_of_int n"
| "js_toString (JStr s) = s"

section \<open>Records\<close>

text \<open>
  An element of \<^verbatim>\<open>data.data\<close> in the response, and the \<^verbatim>\<open>Artwork\<close> built from it
  (lines 39 to 47). The member \<^verbatim>\<open>id\<close> is the field \<open>id_field\<close>.
\<close>

record raw_artwork =
  raw_id :: jsval
  raw_title :: jsval
  raw_place_of_origin :: jsval
  raw_artist_display :: jsval
  raw_inscriptions :: jsval
  raw_date_start :: jsval
  raw_date_end :: jsval

record Artwork =
  id_field :: jsval
  title :: jsval
  place_of_origin :: jsval
  artist_display :: jsval
  inscriptions :: jsval
  date_start :: jsval
  date_end :: jsval

definition transform :: "raw_artwork \<Rightarrow> Artwork" where
  "transform artwork =
     \<lparr> id_field = raw_id artwork,
       title = raw_title artwork,
       place_of_origin = js_or (raw_place_of_origin artwork) (JStr ''Unknown''),
       artist_display = js_or (raw_artist_display artwork) (JStr ''Unknown Artist''),
       inscriptions = js_or (raw_inscriptions artwork) (JStr ''No Inscriptions''),
       date_start = js_or (raw_date_start artwork) (JStr ''N/A''),
       date_end = js_or (raw_date_end artwork) (JStr ''N/A'') \<rparr>"

text \<open>A member is absent when the object lacks it or holds null.\<close>

definition absent :: "jsval \<Rightarrow> bool" where
  "absent v = (v = JUndefined \<or> v = JNull)"

section \<open>The date column\<close>

text \<open>\<^verbatim>\<open>dateTemplate\<close> (lines 123 to 128); \<^verbatim>\<open>===\<close> on primitives is equality.\<close>

definition dateTemplate :: "Artwork \<Rightarrow> jsval" where
  "dateTemplate rowData =
     (if date_start rowData = date_end rowData then date_start rowData
      else JStr (js_toString (date_start rowData) @ '' - '' @ js_toString (date_end rowData)))"

text \<open>The text React shows for a primitive child: a number in decimal, a string as it
  is, and nothing for undefined, null and booleans.\<close>

fun react_text :: "jsval \<Rightarrow> string" where
  "react_text (JNum n) = string_of_int n"
| "react_text (JStr s) = s"
| "react_text _ = []"

section \<open>parseInt\<close>

text \<open>
  \<^verbatim>\<open>parseInt(string)\<close> of ECMAScript with no radix: leading white space is dropped, one
  sign is read, a following \<^verbatim>\<open>0x\<close> or \<^verbatim>\<open>0X\<close> selects radix 16 (radix 10 otherwise),
  and the longest run of digits of the radix is the number. An empty run gives NaN,
  which is \<open>None\<close> here.
\<close>

definition isWhiteSpace :: "char \<Rightarrow> bool" where
  "isWhiteSpace c = (of_char c \<in> {9, 10, 11, 12, 13, 32, 160 :: nat})"

definition digitValue :: "char \<Rightarrow> nat option" where
  "digitValue c =
     (let n = (of_char c :: nat) in
      if 48 \<le> n \<and> n \<le> 57 then Some (n - 48)
      else if 97 \<le> n \<and> n \<le> 122 then Some (n - 87)
      else if 65 \<le> n \<and> n \<le> 90 then Some (n - 55)
      else None)"

definition isRadixDigit :: "nat \<Rightarrow> char \<Rightarrow> bool" where
  "isRadixDigit R c = (case digitValue c of None \<Rightarrow> False | Some d \<Rightarrow> d < R)"

definition mathInt :: "nat \<Rightarrow> string \<Rightarrow> nat" where
  "mathInt R Z = foldl (\<lambda>acc c. acc * R + (case digitValue c of None \<Rightarrow> 0 | Some d \<Rightarrow> d)) 0 Z"

definition stripSign :: "string \<Rightarrow> int \<times> string" where
  "stripSign S =
     (case S of
        [] \<Rightarrow> (1, [])
      | c # cs \<Rightarrow> if c = CHR ''-'' then (- 1, cs) else if c = CHR ''+'' then (1, cs) else (1, S))"

definition stripPrefix :: "string \<Rightarrow> nat \<times> string" where
  "stripPrefix S = (if take 2 S = ''0x'' \<or> take 2 S = ''0X'' then (16, drop 2 S) else (10, S))"

definition parseInt :: "string \<Rightarrow> int option" where
  "parseInt inputString =
     (let (sign, S1) = stripSign (dropWhile isWhiteSpace inputString);
          (R, S2) = stripPrefix S1;
          Z = takeWhile (isRadixDigit R) S2
      in if Z = [] then None else Some (sign * int (mathInt R Z)))"

section \<open>The component\<close>

text \<open>
  The state of \<^verbatim>\<open>ArtworkDataTable\<close>: its \<^verbatim>\<open>useState\<close> cells, the ref
  \<^verbatim>\<open>remainingToSelect\<close>, whether the overlay panel is open, and the notifications and
  console errors produced so far. The object \<^verbatim>\<open>selectedArtworks\<close> is a map from
  property keys to records.
\<close>

record toast =
  severity :: string
  summary :: string
  detail :: string
  life :: nat

record table_state =
  selectedArtworks :: "string \<rightharpoonup> Artwork"
  artworks :: "Artwork list"
  loading :: bool
  currentPage :: int
  totalRecords :: jsval
  rows :: int
  rowsToSelect :: string
  totalSelected :: int
  remainingToSelect :: int
  overlayVisible :: bool
  toasts :: "toast list"
  consoleErrors :: nat

definition initial_state :: table_state where
  "initial_state =
     \<lparr> selectedArtworks = Map.empty, artworks = [], loading = False, currentPage = 1,
       totalRecords = JNum 0, rows = 12, rowsToSelect = [], totalSelected = 0,
       remainingToSelect = 0, overlayVisible = False, toasts = [], consoleErrors = 0 \<rparr>"

subsection \<open>fetchArtworks\<close>

text \<open>
  \<^verbatim>\<open>fetchArtworks\<close> is asynchronous. Up to its \<^verbatim>\<open>await\<close> it sets the loading flag and
  sends the request; the rest runs when the response arrives. The function is a closure
  of the render that created it: \<^verbatim>\<open>rows\<close> and \<^verbatim>\<open>selectedArtworks\<close> in its body are
  the values of that render, whatever the state has become since. A request in flight
  carries them.
\<close>

record request =
  req_page :: int
  req_rows :: int
  req_selected :: "string \<rightharpoonup> Artwork"

text \<open>
  What comes back: \<open>Rejected\<close> when \<^verbatim>\<open>fetch\<close> or \<^verbatim>\<open>response.json()\<close> rejects;
  otherwise the parsed body, of which the code reads \<^verbatim>\<open>data.data\<close> (\<open>None\<close> when it
  is not an array, so that \<^verbatim>\<open>.map\<close> throws; an element is \<open>None\<close> when it is null, so
  that reading its \<^verbatim>\<open>id\<close> throws) and \<^verbatim>\<open>data.pagination.total\<close> (\<open>None\<close> when
  \<^verbatim>\<open>data.pagination\<close> is missing, so that reading \<^verbatim>\<open>total\<close> throws).
\<close>

datatype response = Rejected | Body "raw_artwork option list option" "jsval option"

definition fetchArtworks_request :: "table_state \<Rightarrow> int \<Rightarrow> table_state \<Rightarrow> table_state \<times> request" where
  "fetchArtworks_request render page s =
     (s\<lparr>loading := True\<rparr>,
      \<lparr> req_page = page, req_rows = rows render, req_selected = selectedArtworks render \<rparr>)"

text \<open>The \<^verbatim>\<open>catch\<close> block (lines 63 to 67).\<close>

definition fetch_failed :: "table_state \<Rightarrow> table_state" where
  "fetch_failed s =
     s\<lparr> consoleErrors := consoleErrors s + 1,
        loading := False,
        toasts := toasts s @
          [\<lparr> severity = ''error'', summary = ''Error'', detail = ''Failed to fetch artworks'',
             life = 3000 \<rparr>] \<rparr>"

text \<open>\<^verbatim>\<open>data.data.map(...)\<close>: the first null element throws.\<close>

fun map_transform :: "raw_artwork option list \<Rightarrow> Artwork list option" where
  "map_transform [] = Some []"
| "map_transform (None # xs) = None"
| "map_transform (Some a # xs) =
     (case map_transform xs of None \<Rightarrow> None | Some ys \<Rightarrow> Some (transform a # ys))"

text \<open>\<^verbatim>\<open>newSelections[artwork.id] = artwork\<close>: the key is the identifier as a string.\<close>

definition select_record :: "(string \<rightharpoonup> Artwork) \<Rightarrow> Artwork \<Rightarrow> (string \<rightharpoonup> Artwork)" where
  "select_record acc artwork = acc(js_toString (id_field artwork) \<mapsto> artwork)"

text \<open>The sweep (lines 53 to 62) of the records of a page.\<close>

definition sweep :: "request \<Rightarrow> Artwork list \<Rightarrow> table_state \<Rightarrow> table_state" where
  "sweep rq transformedData s =
     (if remainingToSelect s > 0 then
        let toSelect = min (remainingToSelect s) (int (length transformedData));
            newSelections = foldl select_record (req_selected rq) (take (nat toSelect) transformedData)
        in s\<lparr> selectedArtworks := newSelections,
              remainingToSelect := remainingToSelect s - toSelect,
              totalSelected := totalSelected s + toSelect \<rparr>
      else s)"

definition fetchArtworks_response :: "request \<Rightarrow> response \<Rightarrow> table_state \<Rightarrow> table_state" where
  "fetchArtworks_response rq resp s =
     (case resp of
        Rejected \<Rightarrow> fetch_failed s
      | Body d p \<Rightarrow>
          (case d of
             None \<Rightarrow> fetch_failed s
           | Some elems \<Rightarrow>
               (case map_transform elems of
                  None \<Rightarrow> fetch_failed s
                | Some transformedData \<Rightarrow>
                    (let s1 = s\<lparr>artworks := transformedData\<rparr> in
                     case p of
                       None \<Rightarrow> fetch_failed s1
                     | Some pagination_total \<Rightarrow>
                         sweep rq transformedData (s1\<lparr>totalRecords := pagination_total, loading := False\<rparr>)))))"

subsection \<open>Event handlers\<close>

text \<open>\<^verbatim>\<open>onPage\<close> (lines 74 to 79); \<open>None\<close> is an undefined \<^verbatim>\<open>event.page\<close>.\<close>

definition onPage :: "int option \<Rightarrow> int \<Rightarrow> table_state \<Rightarrow> table_state" where
  "onPage event_page event_rows s =
     (case event_page of
        None \<Rightarrow> s\<lparr>rows := event_rows\<rparr>
      | Some p \<Rightarrow> s\<lparr>currentPage := p + 1, rows := event_rows\<rparr>)"

text \<open>
  \<^verbatim>\<open>handleRowSelectionSubmit\<close> (lines 81 to 93). The handler and the \<^verbatim>\<open>fetchArtworks\<close>
  it calls belong to the render of the state \<open>s\<close>.
\<close>

definition handleRowSelectionSubmit :: "table_state \<Rightarrow> table_state \<times> request option" where
  "handleRowSelectionSubmit s =
     (case parseInt (rowsToSelect s) of
        None \<Rightarrow> (s, None)
      | Some numRows \<Rightarrow>
          if numRows \<le> 0 then (s, None)
          else
            (let s1 = s\<lparr> selectedArtworks := Map.empty, totalSelected := 0,
                         remainingToSelect := numRows, rowsToSelect := [],
                         overlayVisible := False \<rparr>;
                 (s2, rq) = fetchArtworks_request s (currentPage s) s1
             in (s2, Some rq)))"

text \<open>\<^verbatim>\<open>onSelectionChange\<close> (lines 95 to 109).\<close>

definition onSelectionChange :: "Artwork list \<Rightarrow> table_state \<Rightarrow> table_state" where
  "onSelectionChange selection s =
     (let newSelections = foldl select_record Map.empty selection;
          s1 = s\<lparr> selectedArtworks := newSelections, totalSelected := int (length selection) \<rparr>
      in if remainingToSelect s1 > 0
         then s1\<lparr> remainingToSelect := max 0 (remainingToSelect s1 - int (length selection)) \<rparr>
         else s1)"

text \<open>The Clear Selection button (lines 136 to 140).\<close>

definition clearSelection :: "table_state \<Rightarrow> table_state" where
  "clearSelection s = s\<lparr> selectedArtworks := Map.empty, totalSelected := 0, remainingToSelect := 0 \<rparr>"

subsection \<open>Events\<close>

text \<open>
  JavaScript runs one handler at a time, and React renders between two events, so a run
  of the component is a sequence of events, each handled by the closures of the state
  it finds. A world is that state and the requests in flight, oldest first.
\<close>

type_synonym world = "table_state \<times> request list"

text \<open>
  \<^verbatim>\<open>useEffect\<close> (lines 70 to 72) after a render: the effect of the new render runs when
  \<^verbatim>\<open>currentPage\<close> or \<^verbatim>\<open>rows\<close> differs from the previous render.
\<close>

definition useEffect_fetch :: "table_state \<Rightarrow> table_state \<Rightarrow> table_state \<times> request list" where
  "useEffect_fetch prev s =
     (if currentPage s \<noteq> currentPage prev \<or> rows s \<noteq> rows prev
      then (let (s', rq) = fetchArtworks_request s (currentPage s) s in (s', [rq]))
      else (s, []))"

text \<open>After the first render the effect runs once.\<close>

definition initial_world :: world where
  "initial_world =
     (let (s, rq) = fetchArtworks_request initial_state (currentPage initial_state) initial_state
      in (s, [rq]))"

datatype event =
    PageChange "int option" int
  | InputChange string
  | ToggleOverlay
  | Submit
  | SelectionChange "Artwork list"
  | ClearSelection
  | Arrival nat response

text \<open>\<open>Arrival i resp\<close> is the answer \<open>resp\<close> to the request at position \<open>i\<close>.\<close>

fun step :: "event \<Rightarrow> world \<Rightarrow> world" where
  "step (PageChange p r) (s, inflight) =
     (let (s', new) = useEffect_fetch s (onPage p r s) in (s', inflight @ new))"
| "step (InputChange v) (s, inflight) = (s\<lparr>rowsToSelect := v\<rparr>, inflight)"
| "step ToggleOverlay (s, inflight) = (s\<lparr>overlayVisible := \<not> overlayVisible s\<rparr>, inflight)"
| "step Submit (s, inflight) =
     (case handleRowSelectionSubmit s of
        (s', None) \<Rightarrow> (s', inflight)
      | (s', Some rq) \<Rightarrow> (s', inflight @ [rq]))"
| "step (SelectionChange selection) (s, inflight) = (onSelectionChange selection s, inflight)"
| "step ClearSelection (s, inflight) = (clearSelection s, inflight)"
| "step (Arrival i resp) (s, inflight) =
     (if i < length inflight
      then (fetchArtworks_response (inflight ! i) resp s, take i inflight @ drop (Suc i) inflight)
      else (s, inflight))"

definition run :: "event list \<Rightarrow> world \<Rightarrow> world" where
  "run es w = foldl (\<lambda>w e. step e w) w es"

inductive reachable :: "world \<Rightarrow> bool" where
  reachable_init: "reachable initial_world"
| reachable_step: "reachable w \<Longrightarrow> reachable (step e w)"

section \<open>Notions of the specification\<close>

text \<open>A response that carries a record list and a total.\<close>

definition page_response :: "raw_artwork list \<Rightarrow> jsval \<Rightarrow> response" where
  "page_response records count = Body (Some (map Some records)) (Some count)"

text \<open>The property key under which a record is selected.\<close>

definition key_of :: "Artwork \<Rightarrow> string" where
  "key_of artwork = js_toString (id_field artwork)"

text \<open>
  The records newly added by a selection-change event, in the words of the
  specification: the keys of the supplied records that the Selection Set did not hold.
\<close>

definition newly_added :: "(string \<rightharpoonup> Artwork) \<Rightarrow> Artwork list \<Rightarrow> nat" where
  "newly_added before selection = length (filter (\<lambda>k. before k = None) (remdups (map key_of selection)))"




section \<open>Sample data\<close>

definition sample_raw :: "int \<Rightarrow> raw_artwork" where
  "sample_raw n =
     \<lparr> raw_id = JNum n, raw_title = JStr ''Untitled'', raw_place_of_origin = JNull,
       raw_artist_display = JNull, raw_inscriptions = JNull,
       raw_date_start = JNum 1900, raw_date_end = JNum 1905 \<rparr>"

definition sample_artwork :: "int \<Rightarrow> Artwork" where
  "sample_artwork n = transform (sample_raw n)"

definition sample_page :: "int list \<Rightarrow> response" where
  "sample_page ids = page_response (map sample_raw ids) (JNum 100)"

definition empty_origin_record :: raw_artwork where
  "empty_origin_record =
     \<lparr> raw_id = JNum 7, raw_title = JStr ''Vase'', raw_place_of_origin = JStr [],
       raw_artist_display = JStr ''Anonymous'', raw_inscriptions = JNull,
       raw_date_start = JNum 0, raw_date_end = JNum 12 \<rparr>"

definition sample_request :: request where
  "sample_request = \<lparr> req_page = 1, req_rows = 12, req_selected = Map.empty \<rparr>"

definition first_page :: "raw_artwork list" where
  "first_page = map sample_raw [1, 2, 3, 4, 5, 6, 7, 8, 9, 10, 11, 12]"

definition second_page :: "raw_artwork list" where
  "second_page = map sample_raw [13, 14, 15, 16, 17, 18, 19, 20, 21, 22, 23, 24]"

text \<open>The input holds 20 and nothing is selected.\<close>

definition bulk_state :: table_state where
  "bulk_state = initial_state\<lparr>rowsToSelect := ''20''\<rparr>"

text \<open>Record 7 is selected, records 1 and 2 are shown, and the input holds 1.\<close>

definition stale_state :: table_state where
  "stale_state =
     initial_state\<lparr> selectedArtworks := [''7'' \<mapsto> sample_artwork 7], totalSelected := 1,
                    artworks := [sample_artwork 1, sample_artwork 2], totalRecords := JNum 100,
                    rowsToSelect := ''1'' \<rparr>"

text \<open>Record 1 is selected and a sweep still has 5 records to select.\<close>

definition manual_state :: table_state where
  "manual_state =
     initial_state\<lparr> selectedArtworks := [''1'' \<mapsto> sample_artwork 1], totalSelected := 1,
                    remainingToSelect := 5 \<rparr>"

text \<open>Record 1 is shown while a request is in flight.\<close>

definition shown_state :: table_state where
  "shown_state =
     initial_state\<lparr> artworks := [sample_artwork 1], totalRecords := JNum 100, loading := True \<rparr>"

text \<open>A body with a record list and no \<^verbatim>\<open>pagination\<close> member.\<close>

definition no_pagination :: response where
  "no_pagination = Body (Some [Some (sample_raw 2)]) None"

text \<open>The user types 5, submits, and goes to the second page, back to the first and to
  the second again, before any response.\<close>

definition hasty_world :: world where
  "hasty_world =
     run [InputChange ''5'', Submit, PageChange (Some 1) 12, PageChange (Some 0) 12,
          PageChange (Some 1) 12] initial_world"


text \<open>The first page is shown; the user types 20, submits, and goes to the second page
  before the response to the submission arrives. Then the two responses arrive.\<close>

definition eager_world :: world where
  "eager_world =
     run [Arrival 0 (page_response first_page (JNum 100)), InputChange ''20'', Submit,
          PageChange (Some 1) 12] initial_world"

definition first_swept_world :: world where
  "first_swept_world = step (Arrival 0 (page_response first_page (JNum 100))) eager_world"

definition second_swept_world :: world where
  "second_swept_world = step (Arrival 0 (page_response second_page (JNum 100))) first_swept_world"

section \<open>Normalisation of the fetched records\<close>

lemma js_or_absent: "absent v \<Longrightarrow> js_or v d = d"
  by (auto simp: absent_def js_or_def)

lemma js_or_text: "s \<noteq> [] \<Longrightarrow> js_or (JStr s) d = JStr s"
  by (simp add: js_or_def)

lemma js_or_number: "y \<noteq> 0 \<Longrightarrow> js_or (JNum y) d = JNum y"
  by (simp add: js_or_def)

text \<open>
  C7, as stated, fails. The response object
  \<^verbatim>\<open>{id: 7, title: "Vase", place_of_origin: "", artist_display: "Anonymous",
  inscriptions: null, date_start: 0, date_end: 12}\<close> has a place of origin and a start
  year, yet the record built from it has the origin \<^verbatim>\<open>"Unknown"\<close>, not the source's
  empty text, and the start year \<^verbatim>\<open>"N/A"\<close>, not the source's 0: \<^verbatim>\<open>||\<close> replaces every
  falsy value, not only a missing one.
\<close>

theorem transform_present_counterexample:
  "\<not> absent (raw_place_of_origin empty_origin_record)
   \<and> place_of_origin (transform empty_origin_record) \<noteq> raw_place_of_origin empty_origin_record
   \<and> place_of_origin (transform empty_origin_record) = JStr ''Unknown''
   \<and> \<not> absent (raw_date_start empty_origin_record)
   \<and> date_start (transform empty_origin_record) \<noteq> raw_date_start empty_origin_record
   \<and> date_start (transform empty_origin_record) = JStr ''N/A''"
  by (simp add: empty_origin_record_def transform_def absent_def js_or_def)

text \<open>
  C7, amended. The identifier and the title are passed through. Origin, attribution and
  inscriptions are the source's text when it is present and not empty, and
  \<^verbatim>\<open>"Unknown"\<close>, \<^verbatim>\<open>"Unknown Artist"\<close> and \<^verbatim>\<open>"No Inscriptions"\<close> when it is absent or
  empty. Each date is the source's year when that is present and not 0, and \<^verbatim>\<open>"N/A"\<close>
  when it is absent.
\<close>

theorem transform_defaults:
  "id_field (transform a) = raw_id a \<and> title (transform a) = raw_title a
   \<and> (absent (raw_place_of_origin a) \<or> raw_place_of_origin a = JStr []
        \<longrightarrow> place_of_origin (transform a) = JStr ''Unknown'')
   \<and> (\<forall>s. raw_place_of_origin a = JStr s \<and> s \<noteq> [] \<longrightarrow> place_of_origin (transform a) = JStr s)
   \<and> (absent (raw_artist_display a) \<or> raw_artist_display a = JStr []
        \<longrightarrow> artist_display (transform a) = JStr ''Unknown Artist'')
   \<and> (\<forall>s. raw_artist_display a = JStr s \<and> s \<noteq> [] \<longrightarrow> artist_display (transform a) = JStr s)
   \<and> (absent (raw_inscriptions a) \<or> raw_inscriptions a = JStr []
        \<longrightarrow> inscriptions (transform a) = JStr ''No Inscriptions'')
   \<and> (\<forall>s. raw_inscriptions a = JStr s \<and> s \<noteq> [] \<longrightarrow> inscriptions (transform a) = JStr s)
   \<and> (absent (raw_date_start a) \<longrightarrow> date_start (transform a) = JStr ''N/A'')
   \<and> (\<forall>y. raw_date_start a = JNum y \<and> y \<noteq> 0 \<longrightarrow> date_start (transform a) = JNum y)
   \<and> (absent (raw_date_end a) \<longrightarrow> date_end (transform a) = JStr ''N/A'')
   \<and> (\<forall>y. raw_date_end a = JNum y \<and> y \<noteq> 0 \<longrightarrow> date_end (transform a) = JNum y)"
proof -
  have empty: "js_or (JStr []) d = d" for d
    by (simp add: js_or_def)
  show ?thesis
    by (auto simp: transform_def js_or_absent js_or_text js_or_number empty)
qed

theorem transform_defaults_witness:
  "transform \<lparr> raw_id = JNum 7, raw_title = JStr ''Vase'', raw_place_of_origin = JStr ''Athens'',
       raw_artist_display = JNull, raw_inscriptions = JStr [],
       raw_date_start = JNum 1900, raw_date_end = JUndefined \<rparr>
   = \<lparr> id_field = JNum 7, title = JStr ''Vase'', place_of_origin = JStr ''Athens'',
       artist_display = JStr ''Unknown Artist'', inscriptions = JStr ''No Inscriptions'',
       date_start = JNum 1900, date_end = JStr ''N/A'' \<rparr>"
  using transform_defaults [of "\<lparr> raw_id = JNum 7, raw_title = JStr ''Vase'',
       raw_place_of_origin = JStr ''Athens'', raw_artist_display = JNull, raw_inscriptions = JStr [],
       raw_date_start = JNum 1900, raw_date_end = JUndefined \<rparr>"]
  by (simp add: absent_def)

section \<open>Rendering of the date column\<close>

lemma dateTemplate_same: "date_start r = date_end r \<Longrightarrow> dateTemplate r = date_start r"
  by (simp add: dateTemplate_def)

lemma dateTemplate_range:
  "date_start r \<noteq> date_end r \<Longrightarrow>
   dateTemplate r = JStr (js_toString (date_start r) @ '' - '' @ js_toString (date_end r))"
  by (simp add: dateTemplate_def)

lemma string_of_int_1900: "string_of_int 1900 = ''1900''"
  by code_simp

lemma string_of_int_1905: "string_of_int 1905 = ''1905''"
  by code_simp

text \<open>
  C8. The date column shows the start date alone when start and end are equal, so the
  year \<^verbatim>\<open>1900\<close> when both are 1900; it shows start, \<^verbatim>\<open>" - "\<close> and end when they differ, so
  \<^verbatim>\<open>1900 - 1905\<close> for 1900 and 1905; and it shows \<^verbatim>\<open>N/A\<close> for a record whose source had
  neither date.
\<close>

theorem dateTemplate_renders:
  "(date_start r = date_end r \<longrightarrow> dateTemplate r = date_start r)
   \<and> (date_start r \<noteq> date_end r \<longrightarrow>
        dateTemplate r = JStr (js_toString (date_start r) @ '' - '' @ js_toString (date_end r)))
   \<and> (\<forall>y. date_start r = JNum y \<and> date_end r = JNum y \<longrightarrow>
        react_text (dateTemplate r) = string_of_int y)
   \<and> (date_start r = JNum 1900 \<and> date_end r = JNum 1900 \<longrightarrow>
        react_text (dateTemplate r) = ''1900'')
   \<and> (date_start r = JNum 1900 \<and> date_end r = JNum 1905 \<longrightarrow>
        react_text (dateTemplate r) = ''1900 - 1905'')
   \<and> (absent (raw_date_start a) \<and> absent (raw_date_end a) \<longrightarrow>
        react_text (dateTemplate (transform a)) = ''N/A'')"
proof -
  have same: "\<forall>y. date_start r = JNum y \<and> date_end r = JNum y \<longrightarrow>
      react_text (dateTemplate r) = string_of_int y"
    by (simp add: dateTemplate_def)
  have y1900: "date_start r = JNum 1900 \<and> date_end r = JNum 1900 \<longrightarrow>
      react_text (dateTemplate r) = ''1900''"
    by (simp add: dateTemplate_def string_of_int_1900)
  have range: "date_start r = JNum 1900 \<and> date_end r = JNum 1905 \<longrightarrow>
      react_text (dateTemplate r) = ''1900 - 1905''"
    by (simp add: dateTemplate_def string_of_int_1900 string_of_int_1905)
  have omitted: "absent (raw_date_start a) \<and> absent (raw_date_end a) \<longrightarrow>
      react_text (dateTemplate (transform a)) = ''N/A''"
    by (simp add: dateTemplate_def transform_def js_or_absent)
  from same y1900 range omitted show ?thesis
    by (simp add: dateTemplate_same dateTemplate_range)
qed

theorem dateTemplate_renders_witness:
  "react_text (dateTemplate \<lparr> id_field = JNum 1, title = JStr ''A'', place_of_origin = JStr ''B'',
       artist_display = JStr ''C'', inscriptions = JStr ''D'',
       date_start = JNum 1900, date_end = JNum 1905 \<rparr>) = ''1900 - 1905''
   \<and> react_text (dateTemplate (transform \<lparr> raw_id = JNum 1, raw_title = JStr ''A'',
       raw_place_of_origin = JNull, raw_artist_display = JNull, raw_inscriptions = JNull,
       raw_date_start = JNull, raw_date_end = JUndefined \<rparr>)) = ''N/A''"
  using dateTemplate_renders [of "\<lparr> id_field = JNum 1, title = JStr ''A'', place_of_origin = JStr ''B'',
       artist_display = JStr ''C'', inscriptions = JStr ''D'',
       date_start = JNum 1900, date_end = JNum 1905 \<rparr>"
     "\<lparr> raw_id = JNum 1, raw_title = JStr ''A'',
       raw_place_of_origin = JNull, raw_artist_display = JNull, raw_inscriptions = JNull,
       raw_date_start = JNull, raw_date_end = JUndefined \<rparr>"]
  by (simp add: absent_def string_of_int_1900 string_of_int_1905)

section \<open>The bulk-select input\<close>












lemma submit_accepted:
  "parseInt (rowsToSelect s) = Some n \<Longrightarrow> 0 < n \<Longrightarrow>
   handleRowSelectionSubmit s =
     (s\<lparr> selectedArtworks := Map.empty, totalSelected := 0, remainingToSelect := n,
          rowsToSelect := [], overlayVisible := False, loading := True \<rparr>,
      Some \<lparr> req_page = currentPage s, req_rows = rows s, req_selected = selectedArtworks s \<rparr>)"
  by (simp add: handleRowSelectionSubmit_def fetchArtworks_request_def)

lemma parseInt_abc: "parseInt ''abc'' = None"
  by code_simp

lemma parseInt_minus3: "parseInt ''-3'' = Some (- 3)"
  by code_simp
















section \<open>The sweep of a fetched page\<close>

lemma map_transform_Some: "map_transform (map Some records) = Some (map transform records)"
  by (induction records) simp_all

lemma response_page:
  "fetchArtworks_response rq (page_response records count) s =
     sweep rq (map transform records)
       (s\<lparr>artworks := map transform records, totalRecords := count, loading := False\<rparr>)"
  by (simp add: fetchArtworks_response_def page_response_def map_transform_Some)

lemma foldl_select_dom: "dom (foldl select_record m xs) = dom m \<union> key_of ` set xs"
  by (induction xs arbitrary: m) (auto simp: select_record_def key_of_def)

lemma foldl_select_other: "k \<notin> key_of ` set xs \<Longrightarrow> foldl select_record m xs k = m k"
  by (induction xs arbitrary: m) (auto simp: select_record_def key_of_def)

lemma foldl_select_member:
  "distinct (map key_of xs) \<Longrightarrow> a \<in> set xs \<Longrightarrow> foldl select_record m xs (key_of a) = Some a"
proof (induction xs arbitrary: m)
  case Nil
  then show ?case by simp
next
  case (Cons x xs)
  show ?case
  proof (cases "a = x")
    case True
    with Cons.prems(1) have "key_of a \<notin> key_of ` set xs"
      by simp
    then have "foldl select_record (select_record m x) xs (key_of a) = select_record m x (key_of a)"
      by (rule foldl_select_other)
    moreover have "select_record m x (key_of a) = Some a"
      using True by (simp add: select_record_def key_of_def)
    ultimately show ?thesis
      by simp
  next
    case False
    with Cons.prems have "distinct (map key_of xs)" and "a \<in> set xs"
      by simp_all
    then show ?thesis
      by (simp add: Cons.IH)
  qed
qed

lemma sweep_positive:
  assumes "0 < remainingToSelect s"
  shows "remainingToSelect (sweep rq td s) = remainingToSelect s - min (remainingToSelect s) (int (length td))"
    and "totalSelected (sweep rq td s) = totalSelected s + min (remainingToSelect s) (int (length td))"
    and "selectedArtworks (sweep rq td s) =
           foldl select_record (req_selected rq)
             (take (nat (min (remainingToSelect s) (int (length td)))) td)"
  using assms by (simp_all add: sweep_def Let_def)

lemma sweep_idle: "remainingToSelect s \<le> 0 \<Longrightarrow> sweep rq td s = s"
  by (simp add: sweep_def)

lemma response_page_idle:
  assumes "remainingToSelect s \<le> 0"
  shows "selectedArtworks (fetchArtworks_response rq (page_response records count) s) = selectedArtworks s"
    and "totalSelected (fetchArtworks_response rq (page_response records count) s) = totalSelected s"
    and "remainingToSelect (fetchArtworks_response rq (page_response records count) s) = remainingToSelect s"
  using assms by (simp_all add: response_page sweep_idle)

lemma response_page_counts:
  assumes "0 < remainingToSelect s"
  shows "remainingToSelect (fetchArtworks_response rq (page_response records count) s)
           = remainingToSelect s - min (remainingToSelect s) (int (length records))"
    and "totalSelected (fetchArtworks_response rq (page_response records count) s)
           = totalSelected s + min (remainingToSelect s) (int (length records))"
    and "selectedArtworks (fetchArtworks_response rq (page_response records count) s)
           = foldl select_record (req_selected rq)
               (take (nat (min (remainingToSelect s) (int (length records)))) (map transform records))"
  using assms by (simp_all add: response_page sweep_positive)

lemma page_change_counts:
  "remainingToSelect (fst (step (PageChange p r) (s, inflight))) = remainingToSelect s"
  "totalSelected (fst (step (PageChange p r) (s, inflight))) = totalSelected s"
  "selectedArtworks (fst (step (PageChange p r) (s, inflight))) = selectedArtworks s"
  by (simp_all add: useEffect_fetch_def onPage_def fetchArtworks_request_def split: option.splits)

text \<open>
  A request that carries the Selection Set as it is when its response arrives: the
  sweep adds the leading records to the Selection Set and keeps the rest of it.
\<close>

lemma fresh_sweep_adds:
  assumes "0 < remainingToSelect s" and "req_selected rq = selectedArtworks s"
    and "leading = take (nat (min (remainingToSelect s) (int (length records)))) (map transform records)"
    and "s' = fetchArtworks_response rq (page_response records count) s"
  shows "dom (selectedArtworks s') = dom (selectedArtworks s) \<union> key_of ` set leading"
    and "key \<notin> key_of ` set leading \<Longrightarrow> selectedArtworks s' key = selectedArtworks s key"
    and "distinct (map key_of leading) \<Longrightarrow> a \<in> set leading \<Longrightarrow> selectedArtworks s' (key_of a) = Some a"
proof -
  have sel: "selectedArtworks s' = foldl select_record (selectedArtworks s) leading"
    using assms by (simp add: response_page_counts)
  show "dom (selectedArtworks s') = dom (selectedArtworks s) \<union> key_of ` set leading"
    by (simp add: sel foldl_select_dom)
  show "key \<notin> key_of ` set leading \<Longrightarrow> selectedArtworks s' key = selectedArtworks s key"
    by (simp add: sel foldl_select_other)
  show "distinct (map key_of leading) \<Longrightarrow> a \<in> set leading \<Longrightarrow> selectedArtworks s' (key_of a) = Some a"
    by (simp add: sel foldl_select_member)
qed

text \<open>The request that a change of page sends carries the Selection Set of that moment.\<close>

lemma page_change_request:
  "currentPage (onPage p r s) \<noteq> currentPage s \<or> rows (onPage p r s) \<noteq> rows s \<Longrightarrow>
   snd (step (PageChange p r) (s, inflight))
     = inflight @ [\<lparr> req_page = currentPage (onPage p r s), req_rows = rows (onPage p r s),
                     req_selected = selectedArtworks s \<rparr>]"
  by (auto simp: useEffect_fetch_def fetchArtworks_request_def onPage_def split: option.splits)

lemma parseInt_20: "parseInt ''20'' = Some 20"
  by code_simp

lemma first_page_keys:
  "rev (map key_of (map transform first_page))
     = [''12'', ''11'', ''10'', ''9'', ''8'', ''7'', ''6'', ''5'', ''4'', ''3'', ''2'', ''1'']"
  by code_simp

lemma second_page_keys:
  "rev (map key_of (take 8 (map transform second_page)))
     = [''20'', ''19'', ''18'', ''17'', ''16'', ''15'', ''14'', ''13'']"
  by code_simp

lemma first_page_length: "length first_page = 12"
  by (simp add: first_page_def)

lemma second_page_length: "length second_page = 12"
  by (simp add: second_page_def)

lemma eager_world_fields:
  "snd eager_world
     = [\<lparr> req_page = 1, req_rows = 12, req_selected = Map.empty \<rparr>,
        \<lparr> req_page = 2, req_rows = 12, req_selected = Map.empty \<rparr>]"
  "remainingToSelect (fst eager_world) = 20"
  "totalSelected (fst eager_world) = 0"
  "selectedArtworks (fst eager_world) = Map.empty"
  "currentPage (fst eager_world) = 2"
  by (simp_all add: eager_world_def run_def initial_world_def initial_state_def
      fetchArtworks_request_def response_page sweep_idle handleRowSelectionSubmit_def parseInt_20
      useEffect_fetch_def onPage_def)

lemma eager_world_reachable: "reachable eager_world"
proof -
  have "reachable (foldl (\<lambda>w e. step e w) w es)" if "reachable w" for w es
    using that by (induction es arbitrary: w) (simp_all add: reachable_step)
  then show ?thesis
    unfolding eager_world_def run_def using reachable_init by blast
qed

lemma first_swept_fields:
  "snd first_swept_world = [\<lparr> req_page = 2, req_rows = 12, req_selected = Map.empty \<rparr>]"
  "remainingToSelect (fst first_swept_world) = 8"
  "totalSelected (fst first_swept_world) = 12"
  "selectedArtworks (fst first_swept_world) = foldl select_record Map.empty (map transform first_page)"
proof -
  define s where "s = fst eager_world"
  define inflight where "inflight = snd eager_world"
  have w: "eager_world = (s, inflight)"
    by (simp add: s_def inflight_def)
  have inflight: "inflight = [\<lparr> req_page = 1, req_rows = 12, req_selected = Map.empty \<rparr>,
        \<lparr> req_page = 2, req_rows = 12, req_selected = Map.empty \<rparr>]"
    unfolding inflight_def by (rule eager_world_fields)
  have counter: "remainingToSelect s = 20" and count: "totalSelected s = 0"
    unfolding s_def by (rule eager_world_fields)+
  have swept: "first_swept_world
      = (fetchArtworks_response \<lparr> req_page = 1, req_rows = 12, req_selected = Map.empty \<rparr>
           (page_response first_page (JNum 100)) s,
         [\<lparr> req_page = 2, req_rows = 12, req_selected = Map.empty \<rparr>])"
    unfolding first_swept_world_def w by (simp add: inflight)
  have pos: "0 < remainingToSelect s"
    using counter by simp
  show "snd first_swept_world = [\<lparr> req_page = 2, req_rows = 12, req_selected = Map.empty \<rparr>]"
    by (simp add: swept)
  show "remainingToSelect (fst first_swept_world) = 8"
    by (simp add: swept response_page_counts(1) [OF pos] counter first_page_length)
  show "totalSelected (fst first_swept_world) = 12"
    by (simp add: swept response_page_counts(2) [OF pos] counter count first_page_length)
  show "selectedArtworks (fst first_swept_world) = foldl select_record Map.empty (map transform first_page)"
    by (simp add: swept response_page_counts(3) [OF pos] counter first_page_length)
qed

lemma second_swept_fields:
  "snd second_swept_world = []"
  "remainingToSelect (fst second_swept_world) = 0"
  "totalSelected (fst second_swept_world) = 20"
  "selectedArtworks (fst second_swept_world)
     = foldl select_record Map.empty (take 8 (map transform second_page))"
proof -
  define s where "s = fst first_swept_world"
  define inflight where "inflight = snd first_swept_world"
  have w: "first_swept_world = (s, inflight)"
    by (simp add: s_def inflight_def)
  have inflight: "inflight = [\<lparr> req_page = 2, req_rows = 12, req_selected = Map.empty \<rparr>]"
    unfolding inflight_def by (rule first_swept_fields)
  have counter: "remainingToSelect s = 8" and count: "totalSelected s = 12"
    unfolding s_def by (rule first_swept_fields)+
  have swept: "second_swept_world
      = (fetchArtworks_response \<lparr> req_page = 2, req_rows = 12, req_selected = Map.empty \<rparr>
           (page_response second_page (JNum 100)) s, [])"
    unfolding second_swept_world_def w by (simp add: inflight)
  have pos: "0 < remainingToSelect s"
    using counter by simp
  show "snd second_swept_world = []"
    by (simp add: swept)
  show "remainingToSelect (fst second_swept_world) = 0"
    by (simp add: swept response_page_counts(1) [OF pos] counter second_page_length)
  show "totalSelected (fst second_swept_world) = 20"
    by (simp add: swept response_page_counts(2) [OF pos] counter count second_page_length)
  show "selectedArtworks (fst second_swept_world)
     = foldl select_record Map.empty (take 8 (map transform second_page))"
    by (simp add: swept response_page_counts(3) [OF pos] counter second_page_length)
qed

text \<open>
  C1 at a failing input. The first page is shown and nothing is selected. The user
  types 20, submits, and goes to the second page before the response to the submission
  arrives; both requests were sent while the Selection Set was empty and carry the
  empty selection. The first page arrives, with 12 records: its sweep selects records
  1 to 12, the counter is 8 and the selected count 12. The second page arrives, with 12
  records: its sweep starts from the empty selection that its request carries and
  leaves records 13 to 20 as the whole Selection Set. The counter is 0 and the selected
  count 20, but the 12 records of the first sweep are no longer selected: this sweep
  did not add 8 records to the Selection Set, it replaced the Selection Set.
\<close>

theorem overlapping_sweep_replaces_selection:
  "reachable eager_world
   \<and> map req_page (snd eager_world) = [1, 2]
   \<and> remainingToSelect (fst eager_world) = 20
   \<and> totalSelected (fst eager_world) = 0
   \<and> selectedArtworks (fst eager_world) = Map.empty
   \<and> remainingToSelect (fst first_swept_world) = 8
   \<and> totalSelected (fst first_swept_world) = 12
   \<and> dom (selectedArtworks (fst first_swept_world))
       = {''12'', ''11'', ''10'', ''9'', ''8'', ''7'', ''6'', ''5'', ''4'', ''3'', ''2'', ''1''}
   \<and> remainingToSelect (fst second_swept_world) = 0
   \<and> totalSelected (fst second_swept_world) = 20
   \<and> dom (selectedArtworks (fst second_swept_world))
       = {''20'', ''19'', ''18'', ''17'', ''16'', ''15'', ''14'', ''13''}
   \<and> selectedArtworks (fst first_swept_world) ''1'' \<noteq> None
   \<and> selectedArtworks (fst second_swept_world) ''1'' = None"
proof -
  have first: "dom (selectedArtworks (fst first_swept_world))
       = {''12'', ''11'', ''10'', ''9'', ''8'', ''7'', ''6'', ''5'', ''4'', ''3'', ''2'', ''1''}"
  proof -
    have "dom (selectedArtworks (fst first_swept_world)) = key_of ` set (map transform first_page)"
      by (simp only: first_swept_fields foldl_select_dom dom_empty Un_empty_left)
    then have "dom (selectedArtworks (fst first_swept_world))
        = set (rev (map key_of (map transform first_page)))"
      by (simp only: set_map set_rev)
    then show ?thesis
      by (simp only: first_page_keys) simp
  qed
  have second: "dom (selectedArtworks (fst second_swept_world))
       = {''20'', ''19'', ''18'', ''17'', ''16'', ''15'', ''14'', ''13''}"
  proof -
    have "dom (selectedArtworks (fst second_swept_world))
        = key_of ` set (take 8 (map transform second_page))"
      by (simp only: second_swept_fields foldl_select_dom dom_empty Un_empty_left)
    then have "dom (selectedArtworks (fst second_swept_world))
        = set (rev (map key_of (take 8 (map transform second_page))))"
      by (simp only: set_map set_rev)
    then show ?thesis
      by (simp only: second_page_keys) simp
  qed
  have "''1'' \<in> dom (selectedArtworks (fst first_swept_world))"
    unfolding first by simp
  then have kept: "selectedArtworks (fst first_swept_world) ''1'' \<noteq> None"
    by (simp add: domIff)
  have "''1'' \<notin> dom (selectedArtworks (fst second_swept_world))"
    unfolding second by simp
  then have lost: "selectedArtworks (fst second_swept_world) ''1'' = None"
    by (simp add: domIff)
  have pages: "map req_page (snd eager_world) = [1, 2]"
    by (simp add: eager_world_fields)
  from first second kept lost pages show ?thesis
    by (simp only: eager_world_reachable eager_world_fields first_swept_fields second_swept_fields)
      simp
qed

section \<open>Submission of a bulk selection\<close>

lemma key_1: "string_of_int 1 = ''1''"
  by code_simp

lemma key_2: "string_of_int 2 = ''2''"
  by code_simp

lemma key_7: "string_of_int 7 = ''7''"
  by code_simp

lemma sample_id: "id_field (sample_artwork n) = JNum n"
  by (simp add: sample_artwork_def sample_raw_def transform_def)

lemma sample_key: "key_of (sample_artwork n) = string_of_int n"
  by (simp add: key_of_def sample_artwork_def sample_raw_def transform_def)

lemma parseInt_1: "parseInt ''1'' = Some 1"
  by code_simp

lemma submit_stale:
  "handleRowSelectionSubmit stale_state =
     (stale_state\<lparr> selectedArtworks := Map.empty, totalSelected := 0, remainingToSelect := 1,
          rowsToSelect := [], overlayVisible := False, loading := True \<rparr>,
      Some \<lparr> req_page = 1, req_rows = 12, req_selected = [''7'' \<mapsto> sample_artwork 7] \<rparr>)"
proof -
  have "parseInt (rowsToSelect stale_state) = Some 1"
    by (simp add: stale_state_def parseInt_1)
  then show ?thesis
    by (simp add: submit_accepted) (simp add: stale_state_def initial_state_def)
qed

text \<open>
  C2 at a failing input. Record 7 is selected, the page of records 1 and 2 is shown,
  and 1 is submitted. The submission empties the Selection Set and sets the selected
  count to 0 and the counter to 1. The request it sends carries the selection of the
  render in which the handler was created, which still holds record 7; the sweep of
  the response copies that selection. Afterwards the Selection Set holds records 1 and
  7, and the selected count is 1.
\<close>

theorem submit_sweep_keeps_old_selection:
  "selectedArtworks (fst (step Submit (stale_state, []))) = Map.empty
   \<and> totalSelected (fst (step Submit (stale_state, []))) = 0
   \<and> remainingToSelect (fst (step Submit (stale_state, []))) = 1
   \<and> length (snd (step Submit (stale_state, []))) = 1
   \<and> selectedArtworks (fst (run [Submit, Arrival 0 (sample_page [1, 2])] (stale_state, []))) ''7''
       = Some (sample_artwork 7)
   \<and> selectedArtworks (fst (run [Submit, Arrival 0 (sample_page [1, 2])] (stale_state, []))) ''1''
       = Some (sample_artwork 1)
   \<and> dom (selectedArtworks (fst (run [Submit, Arrival 0 (sample_page [1, 2])] (stale_state, []))))
       = {''1'', ''7''}
   \<and> totalSelected (fst (run [Submit, Arrival 0 (sample_page [1, 2])] (stale_state, []))) = 1
   \<and> remainingToSelect (fst (run [Submit, Arrival 0 (sample_page [1, 2])] (stale_state, []))) = 0"
proof -
  let ?s0 = "stale_state\<lparr> selectedArtworks := Map.empty, totalSelected := 0, remainingToSelect := 1,
          rowsToSelect := [], overlayVisible := False, loading := True \<rparr>"
  let ?rq = "\<lparr> req_page = 1, req_rows = 12, req_selected = [''7'' \<mapsto> sample_artwork 7] \<rparr>"
  let ?s1 = "fetchArtworks_response ?rq (sample_page [1, 2]) ?s0"
  have submitted: "step Submit (stale_state, []) = (?s0, [?rq])"
    by (simp add: submit_stale)
  have arrived: "run [Submit, Arrival 0 (sample_page [1, 2])] (stale_state, []) = (?s1, [])"
    by (simp add: run_def submit_stale)
  have pos: "0 < remainingToSelect ?s0"
    by simp
  have sel: "selectedArtworks ?s1 = [''7'' \<mapsto> sample_artwork 7, ''1'' \<mapsto> sample_artwork 1]"
    unfolding sample_page_def response_page_counts(3) [OF pos]
    by (simp add: select_record_def sample_artwork_def [symmetric] sample_id key_1)
  have counts: "totalSelected ?s1 = 1" "remainingToSelect ?s1 = 0"
    unfolding sample_page_def response_page_counts(1,2) [OF pos] by simp_all
  show ?thesis
    unfolding submitted arrived by (simp add: sel counts)
qed

text \<open>
  Whatever was selected before, the sweep of the response to a submission keeps every
  selected record whose key is not the key of a swept record; when nothing was selected
  before, the Selection Set is the swept records.
\<close>

lemma submit_sweep_selection:
  assumes "parseInt (rowsToSelect s) = Some n" and "0 < n"
    and "handleRowSelectionSubmit s = (s0, Some rq)"
    and "s1 = fetchArtworks_response rq (page_response records count) s0"
    and "leading = take (nat (min n (int (length records)))) (map transform records)"
  shows "dom (selectedArtworks s1) = dom (selectedArtworks s) \<union> key_of ` set leading"
    and "key \<notin> key_of ` set leading \<Longrightarrow> selectedArtworks s1 key = selectedArtworks s key"
proof -
  have s0: "remainingToSelect s0 = n" and rq: "req_selected rq = selectedArtworks s"
    using assms(1,2,3) by (auto simp: submit_accepted)
  then have "selectedArtworks s1 = foldl select_record (selectedArtworks s) leading"
    using assms(2,4,5) by (simp add: response_page_counts)
  then show "dom (selectedArtworks s1) = dom (selectedArtworks s) \<union> key_of ` set leading"
    and "key \<notin> key_of ` set leading \<Longrightarrow> selectedArtworks s1 key = selectedArtworks s key"
    by (simp_all add: foldl_select_dom foldl_select_other)
qed

section \<open>Manual selection\<close>

lemma selection_change_fields:
  "selectedArtworks (onSelectionChange selection s) = foldl select_record Map.empty selection"
  "totalSelected (onSelectionChange selection s) = int (length selection)"
  "remainingToSelect (onSelectionChange selection s) =
     (if 0 < remainingToSelect s then max 0 (remainingToSelect s - int (length selection))
      else remainingToSelect s)"
  by (simp_all add: onSelectionChange_def Let_def)

text \<open>
  C3, as stated, fails. Record 1 is selected and the counter is 5. The view reports the
  selection of records 1 and 2, in which only record 2 is new. The counter becomes 3:
  it goes down by the 2 records of the reported selection, not by the 1 record newly
  added.
\<close>

theorem selection_change_counterexample:
  "remainingToSelect manual_state = 5
   \<and> newly_added (selectedArtworks manual_state) [sample_artwork 1, sample_artwork 2] = 1
   \<and> remainingToSelect (onSelectionChange [sample_artwork 1, sample_artwork 2] manual_state) = 3
   \<and> remainingToSelect (onSelectionChange [sample_artwork 1, sample_artwork 2] manual_state)
       \<noteq> max 0 (remainingToSelect manual_state
            - int (newly_added (selectedArtworks manual_state) [sample_artwork 1, sample_artwork 2]))"
proof -
  have counter: "remainingToSelect manual_state = 5"
    by (simp add: manual_state_def)
  have added: "newly_added (selectedArtworks manual_state) [sample_artwork 1, sample_artwork 2] = 1"
    by (simp add: newly_added_def manual_state_def sample_key key_1 key_2)
  have after: "remainingToSelect (onSelectionChange [sample_artwork 1, sample_artwork 2] manual_state) = 3"
    by (simp add: selection_change_fields counter)
  show ?thesis
    by (simp add: counter added after)
qed

text \<open>
  C3, amended. A selection-change event replaces the Selection Set by the reported
  records and sets the selected count to their number. While the counter is positive,
  the event takes the number of reported records, whether they were selected before or
  not, off the counter, and stops at 0; a counter that is not positive is left as it is.
\<close>

theorem selection_change_counter:
  "remainingToSelect (onSelectionChange selection s) =
     (if 0 < remainingToSelect s then max 0 (remainingToSelect s - int (length selection))
      else remainingToSelect s)
   \<and> (0 \<le> remainingToSelect s \<longrightarrow> 0 \<le> remainingToSelect (onSelectionChange selection s))
   \<and> totalSelected (onSelectionChange selection s) = int (length selection)
   \<and> dom (selectedArtworks (onSelectionChange selection s)) = key_of ` set selection
   \<and> (distinct (map key_of selection) \<longrightarrow>
        (\<forall>a\<in>set selection. selectedArtworks (onSelectionChange selection s) (key_of a) = Some a))"
  by (simp add: selection_change_fields foldl_select_dom foldl_select_member)

theorem selection_change_counter_witness:
  "remainingToSelect (onSelectionChange [sample_artwork 1, sample_artwork 2] manual_state) = 3
   \<and> totalSelected (onSelectionChange [sample_artwork 1, sample_artwork 2] manual_state) = 2
   \<and> selectedArtworks (onSelectionChange [sample_artwork 1, sample_artwork 2] manual_state) ''2''
       = Some (sample_artwork 2)"
proof -
  have keys: "distinct (map key_of [sample_artwork 1, sample_artwork 2])"
    and key: "key_of (sample_artwork 2) = ''2''"
    and counter: "remainingToSelect manual_state = 5"
    by (simp_all add: sample_key key_1 key_2 manual_state_def)
  from selection_change_counter [of "[sample_artwork 1, sample_artwork 2]" manual_state] keys
  have "remainingToSelect (onSelectionChange [sample_artwork 1, sample_artwork 2] manual_state) = 3"
    and "totalSelected (onSelectionChange [sample_artwork 1, sample_artwork 2] manual_state) = 2"
    and "selectedArtworks (onSelectionChange [sample_artwork 1, sample_artwork 2] manual_state)
           (key_of (sample_artwork 2)) = Some (sample_artwork 2)"
    by (simp_all add: counter)
  then show ?thesis
    by (simp add: key)
qed

section \<open>A fetch that fails\<close>

lemma fetch_failed_fields:
  "artworks (fetch_failed s) = artworks s"
  "totalRecords (fetch_failed s) = totalRecords s"
  "selectedArtworks (fetch_failed s) = selectedArtworks s"
  "totalSelected (fetch_failed s) = totalSelected s"
  "remainingToSelect (fetch_failed s) = remainingToSelect s"
  "loading (fetch_failed s) = False"
  "length (toasts (fetch_failed s)) = length (toasts s) + 1"
  by (simp_all add: fetch_failed_def)

lemma map_transform_null: "None \<in> set elems \<Longrightarrow> map_transform elems = None"
  by (induction elems rule: map_transform.induct) auto

text \<open>
  A failure before the record list has been transformed: the request or the reading of
  the body rejects, the body has no record list, or a record of the list is null. The
  \<^verbatim>\<open>catch\<close> block runs on the state as it was.
\<close>

lemma early_failure:
  "resp = Rejected \<or> (\<exists>p. resp = Body None p) \<or> (\<exists>elems p. resp = Body (Some elems) p \<and> None \<in> set elems)
   \<Longrightarrow> fetchArtworks_response rq resp s = fetch_failed s"
  by (auto simp: fetchArtworks_response_def map_transform_null)

text \<open>
  C5 at a failing input. Record 1 is shown. The body of the response has the record
  list \<^verbatim>\<open>[record 2]\<close> and no \<^verbatim>\<open>pagination\<close> member. \<^verbatim>\<open>setArtworks\<close> has run when reading
  \<^verbatim>\<open>data.pagination.total\<close> throws: the failure is caught, the loading flag is cleared
  and one notification is produced, the total, the Selection Set, the selected count
  and the counter are as before, but the records shown are now those of the failed
  response.
\<close>

theorem late_failure_overwrites_artworks:
  "artworks shown_state = [sample_artwork 1]
   \<and> artworks (fetchArtworks_response sample_request no_pagination shown_state) = [sample_artwork 2]
   \<and> artworks (fetchArtworks_response sample_request no_pagination shown_state) \<noteq> artworks shown_state
   \<and> toasts (fetchArtworks_response sample_request no_pagination shown_state)
       = toasts shown_state @
           [\<lparr> severity = ''error'', summary = ''Error'', detail = ''Failed to fetch artworks'',
              life = 3000 \<rparr>]
   \<and> loading (fetchArtworks_response sample_request no_pagination shown_state) = False
   \<and> totalRecords (fetchArtworks_response sample_request no_pagination shown_state) = totalRecords shown_state
   \<and> selectedArtworks (fetchArtworks_response sample_request no_pagination shown_state)
       = selectedArtworks shown_state
   \<and> totalSelected (fetchArtworks_response sample_request no_pagination shown_state)
       = totalSelected shown_state
   \<and> remainingToSelect (fetchArtworks_response sample_request no_pagination shown_state)
       = remainingToSelect shown_state"
proof -
  have late: "fetchArtworks_response sample_request no_pagination shown_state
      = fetch_failed (shown_state\<lparr>artworks := [sample_artwork 2]\<rparr>)"
    by (simp add: fetchArtworks_response_def no_pagination_def sample_artwork_def)
  have differ: "sample_artwork 2 \<noteq> sample_artwork 1"
    by (simp add: sample_artwork_def sample_raw_def transform_def)
  show ?thesis
    unfolding late using differ by (simp add: fetch_failed_def shown_state_def)
qed

section \<open>The counter over the runs of the component\<close>

lemma response_nonneg:
  "0 \<le> remainingToSelect s \<Longrightarrow> 0 \<le> remainingToSelect (fetchArtworks_response rq resp s)"
  by (auto simp: fetchArtworks_response_def fetch_failed_def sweep_def Let_def
      split: response.splits option.splits)

lemma submit_nonneg:
  "0 \<le> remainingToSelect s \<Longrightarrow> 0 \<le> remainingToSelect (fst (handleRowSelectionSubmit s))"
  by (auto simp: handleRowSelectionSubmit_def fetchArtworks_request_def split: option.splits)

lemma step_nonneg:
  assumes "0 \<le> remainingToSelect (fst w)"
  shows "0 \<le> remainingToSelect (fst (step e w))"
proof -
  obtain s inflight where w: "w = (s, inflight)"
    by (cases w)
  with assms have s: "0 \<le> remainingToSelect s"
    by simp
  show ?thesis
  proof (cases e)
    case (PageChange p r)
    with s w show ?thesis
      by (simp only: page_change_counts)
  next
    case Submit
    with submit_nonneg [OF s] w show ?thesis
      by (auto split: prod.splits option.splits)
  next
    case (SelectionChange selection)
    with s w show ?thesis
      by (simp add: selection_change_fields)
  next
    case (Arrival i resp)
    with s w show ?thesis
      by (simp add: response_nonneg)
  qed (use s w in \<open>simp_all add: clearSelection_def\<close>)
qed

lemma initial_counter: "remainingToSelect (fst initial_world) = 0"
  by (simp add: initial_world_def initial_state_def fetchArtworks_request_def)

lemma reachable_nonneg: "reachable w \<Longrightarrow> 0 \<le> remainingToSelect (fst w)"
  by (induction rule: reachable.induct) (simp_all add: initial_counter step_nonneg)

lemma run_snoc: "run (es @ [e]) w = step e (run es w)"
  by (simp add: run_def)

lemma reachable_run: "reachable w \<Longrightarrow> reachable (run es w)"
  by (induction es rule: rev_induct) (simp_all add: run_def reachable_step)

lemma response_idle:
  assumes "remainingToSelect s \<le> 0"
  shows "selectedArtworks (fetchArtworks_response rq resp s) = selectedArtworks s"
    and "totalSelected (fetchArtworks_response rq resp s) = totalSelected s"
    and "remainingToSelect (fetchArtworks_response rq resp s) = remainingToSelect s"
  using assms
  by (auto simp: fetchArtworks_response_def fetch_failed_def sweep_def Let_def
      split: response.splits option.splits)

lemma arrival_idle:
  assumes "remainingToSelect (fst w) = 0"
  shows "selectedArtworks (fst (step (Arrival i resp) w)) = selectedArtworks (fst w)"
    and "totalSelected (fst (step (Arrival i resp) w)) = totalSelected (fst w)"
    and "remainingToSelect (fst (step (Arrival i resp) w)) = 0"
  using assms by (cases w; simp add: response_idle)+

lemma step_idle:
  assumes "remainingToSelect (fst w) = 0" and "e \<noteq> Submit"
  shows "remainingToSelect (fst (step e w)) = 0"
proof -
  obtain s inflight where w: "w = (s, inflight)"
    by (cases w)
  with assms(1) have s: "remainingToSelect s = 0"
    by simp
  show ?thesis
  proof (cases e)
    case (PageChange p r)
    with s w show ?thesis
      by (simp only: page_change_counts)
  next
    case Submit
    with assms(2) show ?thesis
      by simp
  next
    case (Arrival i resp)
    with assms(1) show ?thesis
      by (simp only: arrival_idle)
  qed (use s w in \<open>simp_all add: clearSelection_def selection_change_fields\<close>)
qed

lemma run_idle:
  "remainingToSelect (fst w) = 0 \<Longrightarrow> Submit \<notin> set es \<Longrightarrow> remainingToSelect (fst (run es w)) = 0"
proof (induction es rule: rev_induct)
  case Nil
  then show ?case
    by (simp add: run_def)
next
  case (snoc e es)
  then have "remainingToSelect (fst (run es w)) = 0" and "e \<noteq> Submit"
    by auto
  then show ?case
    unfolding run_snoc by (rule step_idle)
qed

text \<open>
  C4. In every world that the component can reach, the counter is not negative. Clear
  Selection empties the Selection Set and sets the selected count and the counter to 0.
  A response that arrives while the counter is 0 leaves the Selection Set, the selected
  count and the counter as they are, and along any events without a submission the
  counter stays 0.
\<close>

theorem counter_invariant:
  "(reachable w \<longrightarrow> 0 \<le> remainingToSelect (fst w))
   \<and> remainingToSelect (clearSelection s) = 0 \<and> totalSelected (clearSelection s) = 0
   \<and> selectedArtworks (clearSelection s) = Map.empty
   \<and> (remainingToSelect (fst w) = 0 \<longrightarrow>
        selectedArtworks (fst (step (Arrival i resp) w)) = selectedArtworks (fst w)
        \<and> totalSelected (fst (step (Arrival i resp) w)) = totalSelected (fst w)
        \<and> remainingToSelect (fst (step (Arrival i resp) w)) = 0)
   \<and> (remainingToSelect (fst w) = 0 \<and> Submit \<notin> set es \<longrightarrow>
        (\<forall>n\<le>length es. remainingToSelect (fst (run (take n es) w)) = 0))"
proof -
  have prefixes: "remainingToSelect (fst w) = 0 \<and> Submit \<notin> set es \<longrightarrow>
      (\<forall>n\<le>length es. remainingToSelect (fst (run (take n es) w)) = 0)"
  proof (intro impI allI)
    fix n
    assume a: "remainingToSelect (fst w) = 0 \<and> Submit \<notin> set es"
    then have "Submit \<notin> set (take n es)"
      by (auto dest: in_set_takeD)
    with a show "remainingToSelect (fst (run (take n es) w)) = 0"
      by (simp add: run_idle)
  qed
  show ?thesis
    using prefixes by (simp add: reachable_nonneg arrival_idle clearSelection_def)
qed

lemma parseInt_5: "parseInt ''5'' = Some 5"
  by code_simp

lemma hasty_world_fields:
  "map req_page (snd hasty_world) = [1, 1, 2, 1, 2]"
  "map req_rows (snd hasty_world) = [12, 12, 12, 12, 12]"
  "currentPage (fst hasty_world) = 2"
  "remainingToSelect (fst hasty_world) = 5"
  "artworks (fst hasty_world) = []"
  by (simp_all add: hasty_world_def run_def initial_world_def initial_state_def
      fetchArtworks_request_def handleRowSelectionSubmit_def parseInt_5 useEffect_fetch_def
      onPage_def)

lemma hasty_world_reachable: "reachable hasty_world"
  unfolding hasty_world_def by (rule reachable_run) (rule reachable_init)

lemma step_clear: "fst (step ClearSelection w) = clearSelection (fst w)"
  by (cases w) simp

theorem counter_invariant_witness:
  "0 \<le> remainingToSelect (fst hasty_world)
   \<and> remainingToSelect (fst (step ClearSelection hasty_world)) = 0
   \<and> selectedArtworks (fst (step (Arrival 0 (sample_page [1, 2])) (step ClearSelection hasty_world)))
       = selectedArtworks (fst (step ClearSelection hasty_world))
   \<and> remainingToSelect (fst (run [Arrival 0 (sample_page [1, 2]), PageChange (Some 2) 12]
        (step ClearSelection hasty_world))) = 0"
proof -
  have cleared: "remainingToSelect (fst (step ClearSelection hasty_world)) = 0"
    by (simp add: step_clear clearSelection_def)
  have quiet: "Submit \<notin> set [Arrival 0 (sample_page [1, 2]), PageChange (Some 2) 12]"
    by simp
  from counter_invariant [of hasty_world] hasty_world_reachable
  have nonneg: "0 \<le> remainingToSelect (fst hasty_world)"
    by blast
  from counter_invariant [of "step ClearSelection hasty_world" _ 0 "sample_page [1, 2]"
      "[Arrival 0 (sample_page [1, 2]), PageChange (Some 2) 12]"] cleared quiet
  have "selectedArtworks (fst (step (Arrival 0 (sample_page [1, 2])) (step ClearSelection hasty_world)))
       = selectedArtworks (fst (step ClearSelection hasty_world))"
    and "\<forall>n\<le>2. remainingToSelect (fst (run (take n [Arrival 0 (sample_page [1, 2]), PageChange (Some 2) 12])
        (step ClearSelection hasty_world))) = 0"
    by simp_all
  then have "selectedArtworks (fst (step (Arrival 0 (sample_page [1, 2])) (step ClearSelection hasty_world)))
       = selectedArtworks (fst (step ClearSelection hasty_world))"
    and "remainingToSelect (fst (run (take 2 [Arrival 0 (sample_page [1, 2]), PageChange (Some 2) 12])
        (step ClearSelection hasty_world))) = 0"
    by blast+
  with nonneg cleared show ?thesis
    by simp
qed

section \<open>Requests in flight\<close>

lemma response_page_shown:
  "artworks (fetchArtworks_response rq (page_response records count) s) = map transform records"
  by (simp add: response_page sweep_def Let_def)

lemma response_any_page:
  "fetchArtworks_response (rq\<lparr>req_page := p, req_rows := r\<rparr>) resp s = fetchArtworks_response rq resp s"
  by (simp add: fetchArtworks_response_def sweep_def Let_def split: response.splits option.splits)

text \<open>
  C9, as stated, fails. After the first render the request for page 1 is in flight.
  The user types 5, submits, and goes to page 2, back to page 1 and to page 2 again
  before any response: five requests are in flight, three of them for page 1 and two
  for page 2, all with 12 rows. The response to the oldest one, for page 1, arrives
  while page 2 is the current page: its records are shown and swept, and the counter
  goes from 5 to 3.
\<close>

theorem stale_arrival_counterexample:
  "reachable hasty_world
   \<and> map req_page (snd hasty_world) = [1, 1, 2, 1, 2]
   \<and> map req_rows (snd hasty_world) = [12, 12, 12, 12, 12]
   \<and> currentPage (fst hasty_world) = 2
   \<and> remainingToSelect (fst hasty_world) = 5
   \<and> remainingToSelect (fst (step (Arrival 0 (sample_page [1, 2])) hasty_world)) = 3
   \<and> artworks (fst (step (Arrival 0 (sample_page [1, 2])) hasty_world))
       = [sample_artwork 1, sample_artwork 2]"
proof -
  define s where "s = fst hasty_world"
  define inflight where "inflight = snd hasty_world"
  have w: "(s, inflight) = hasty_world"
    by (simp add: s_def inflight_def)
  have "length (map req_page inflight) = 5"
    unfolding inflight_def by (simp only: hasty_world_fields) simp
  then have len: "0 < length inflight"
    by simp
  have counter: "remainingToSelect s = 5"
    unfolding s_def by (rule hasty_world_fields)
  have "remainingToSelect (fst (step (Arrival 0 (sample_page [1, 2])) (s, inflight))) = 3"
    and "artworks (fst (step (Arrival 0 (sample_page [1, 2])) (s, inflight)))
       = [sample_artwork 1, sample_artwork 2]"
    using len counter
    by (simp_all add: sample_page_def response_page_counts response_page_shown sample_artwork_def)
  then have "remainingToSelect (fst (step (Arrival 0 (sample_page [1, 2])) hasty_world)) = 3"
    and "artworks (fst (step (Arrival 0 (sample_page [1, 2])) hasty_world))
       = [sample_artwork 1, sample_artwork 2]"
    unfolding w by simp_all
  then show ?thesis
    by (simp add: hasty_world_fields hasty_world_reachable)
qed

text \<open>
  C9, amended. Nothing serialises the requests and nothing discards a response. Every
  change of the page or of the page size, and every accepted submission, adds a request
  to those in flight, however many there are. A response is handled when it arrives, in
  the same way whatever page and size it was requested for and whatever the current
  page is: its records are shown, and when the counter is positive they are swept and
  the counter goes down by the smaller of the counter and their number.
\<close>

theorem fetch_unguarded:
  "(currentPage (onPage p r s) \<noteq> currentPage s \<or> rows (onPage p r s) \<noteq> rows s \<longrightarrow>
      snd (step (PageChange p r) (s, inflight))
        = inflight @ [\<lparr> req_page = currentPage (onPage p r s), req_rows = rows (onPage p r s),
                        req_selected = selectedArtworks s \<rparr>])
   \<and> (\<forall>n. parseInt (rowsToSelect s) = Some n \<and> 0 < n \<longrightarrow>
        snd (step Submit (s, inflight))
          = inflight @ [\<lparr> req_page = currentPage s, req_rows = rows s,
                          req_selected = selectedArtworks s \<rparr>])
   \<and> fetchArtworks_response (rq\<lparr>req_page := p', req_rows := r'\<rparr>) resp s
       = fetchArtworks_response rq resp s
   \<and> (i < length inflight \<longrightarrow>
        artworks (fst (step (Arrival i (page_response records count)) (s, inflight)))
          = map transform records
        \<and> length (snd (step (Arrival i (page_response records count)) (s, inflight)))
          = length inflight - 1
        \<and> (0 < remainingToSelect s \<longrightarrow>
             remainingToSelect (fst (step (Arrival i (page_response records count)) (s, inflight)))
               = remainingToSelect s - min (remainingToSelect s) (int (length records))))"
proof -
  have paging: "currentPage (onPage p r s) \<noteq> currentPage s \<or> rows (onPage p r s) \<noteq> rows s \<longrightarrow>
      snd (step (PageChange p r) (s, inflight))
        = inflight @ [\<lparr> req_page = currentPage (onPage p r s), req_rows = rows (onPage p r s),
                        req_selected = selectedArtworks s \<rparr>]"
    by (auto simp: useEffect_fetch_def fetchArtworks_request_def onPage_def split: option.splits)
  have submitting: "\<forall>n. parseInt (rowsToSelect s) = Some n \<and> 0 < n \<longrightarrow>
        snd (step Submit (s, inflight))
          = inflight @ [\<lparr> req_page = currentPage s, req_rows = rows s,
                          req_selected = selectedArtworks s \<rparr>]"
    by (simp add: submit_accepted)
  have arriving: "i < length inflight \<longrightarrow>
        artworks (fst (step (Arrival i (page_response records count)) (s, inflight)))
          = map transform records
        \<and> length (snd (step (Arrival i (page_response records count)) (s, inflight)))
          = length inflight - 1
        \<and> (0 < remainingToSelect s \<longrightarrow>
             remainingToSelect (fst (step (Arrival i (page_response records count)) (s, inflight)))
               = remainingToSelect s - min (remainingToSelect s) (int (length records)))"
    by (auto simp: response_page_shown response_page_counts)
  from paging submitting arriving show ?thesis
    by (simp only: response_any_page)
qed

theorem fetch_unguarded_witness:
  "snd (step (PageChange (Some 1) 12) (initial_state, [sample_request]))
     = [sample_request, \<lparr> req_page = 2, req_rows = 12, req_selected = Map.empty \<rparr>]
   \<and> snd (step Submit (bulk_state, [sample_request])) = [sample_request, sample_request]
   \<and> remainingToSelect (fst (step (Arrival 0 (page_response first_page (JNum 100)))
        (manual_state, [sample_request\<lparr>req_page := 9\<rparr>]))) = 0"
proof -
  have turn: "currentPage (onPage (Some 1) 12 initial_state) \<noteq> currentPage initial_state"
    and page: "currentPage (onPage (Some 1) 12 initial_state) = 2"
    and size: "rows (onPage (Some 1) 12 initial_state) = 12"
    and none: "selectedArtworks initial_state = Map.empty"
    by (simp_all add: onPage_def initial_state_def)
  from fetch_unguarded [of "Some 1" 12 initial_state "[sample_request]"] turn
  have paging: "snd (step (PageChange (Some 1) 12) (initial_state, [sample_request]))
     = [sample_request, \<lparr> req_page = 2, req_rows = 12, req_selected = Map.empty \<rparr>]"
    by (simp only: page size none) simp
  have twenty: "parseInt (rowsToSelect bulk_state) = Some 20 \<and> (0::int) < 20"
    by (simp add: bulk_state_def parseInt_20)
  have same: "\<lparr> req_page = currentPage bulk_state, req_rows = rows bulk_state,
      req_selected = selectedArtworks bulk_state \<rparr> = sample_request"
    by (simp add: bulk_state_def initial_state_def sample_request_def)
  from fetch_unguarded [of _ _ bulk_state "[sample_request]"] twenty
  have submitting: "snd (step Submit (bulk_state, [sample_request])) = [sample_request, sample_request]"
    unfolding same by simp
  have first: "(0::nat) < length [sample_request\<lparr>req_page := 9\<rparr>]"
    and counter: "remainingToSelect manual_state = 5" and len: "length first_page = 12"
    by (simp_all add: manual_state_def first_page_def)
  from fetch_unguarded [of _ _ manual_state "[sample_request\<lparr>req_page := 9\<rparr>]" _ _ _ _ 0
      first_page "JNum 100"] first
  have arriving: "remainingToSelect (fst (step (Arrival 0 (page_response first_page (JNum 100)))
        (manual_state, [sample_request\<lparr>req_page := 9\<rparr>]))) = 0"
    by (simp only: counter len)
  from paging submitting arriving show ?thesis
    by blast
qed


end
